theory Spec2Isabelle
  imports Main
begin

section \<open>Go library functions used by \<open>util/azure/utils.go\<close>\<close>

text \<open>
  Go strings are byte sequences; they are modelled as \<open>string\<close> (a list of 8-bit
  characters). The functions of this section model the Go standard library functions
  the repository calls: \<open>strings.Split\<close> (with separator \<open>"/"\<close>),
  \<open>strings.Contains\<close>, \<open>strings.Join\<close>, \<open>path.Clean\<close> and \<open>path.Join\<close>.
\<close>

text \<open>
  \<open>strings.Split(s, "/")\<close>: the substrings of \<open>s\<close> between the separators; one more
  element than \<open>s\<close> has separators, so the empty string gives one empty element.
  The result is never empty, so the first branch of the inner \<open>case\<close> is not reached.
\<close>

fun strings_Split :: "string \<Rightarrow> string list" where
  "strings_Split [] = [[]]"
| "strings_Split (c # cs) =
     (if c = CHR ''/'' then [] # strings_Split cs
      else (case strings_Split cs of
              [] \<Rightarrow> [[c]]
            | x # xs \<Rightarrow> (c # x) # xs))"

text \<open>\<open>strings.Contains(s, substr)\<close>: \<open>substr\<close> occurs in \<open>s\<close> as a contiguous run.\<close>

fun hasPrefix :: "string \<Rightarrow> string \<Rightarrow> bool" where
  "hasPrefix s [] = True"
| "hasPrefix [] (p # ps) = False"
| "hasPrefix (c # cs) (p # ps) = (c = p \<and> hasPrefix cs ps)"

fun strings_Contains :: "string \<Rightarrow> string \<Rightarrow> bool" where
  "strings_Contains [] substr = hasPrefix [] substr"
| "strings_Contains (c # cs) substr = (hasPrefix (c # cs) substr \<or> strings_Contains cs substr)"

text \<open>\<open>strings.Join(elems, "/")\<close>.\<close>

fun strings_Join :: "string list \<Rightarrow> string" where
  "strings_Join [] = []"
| "strings_Join [e] = e"
| "strings_Join (e # f # es) = e @ CHR ''/'' # strings_Join (f # es)"

text \<open>
  \<open>path.Clean\<close> works through the path one element at a time (an element is a maximal
  run of bytes other than \<open>/\<close>) and writes the cleaned elements to an output buffer:
  an empty element and \<open>.\<close> are dropped; \<open>..\<close> removes the last element written if there
  is one that may be removed, is dropped at the top of a rooted path, and is kept at
  the start of a relative path (where it then may not be removed); any other element is
  appended. \<open>cleanElems rooted out es\<close> is this loop: \<open>out\<close> holds the elements written
  so far, last first. The elements that may not be removed are exactly the \<open>..\<close>
  elements at the start of a relative path, so the buffer can backtrack if and only if
  its last element is not \<open>..\<close>.
\<close>

fun cleanElems :: "bool \<Rightarrow> string list \<Rightarrow> string list \<Rightarrow> string list" where
  "cleanElems rooted out [] = rev out"
| "cleanElems rooted out (e # es) =
     (if e = '''' \<or> e = ''.'' then cleanElems rooted out es
      else if e = ''..'' then
        (case out of
           [] \<Rightarrow> if rooted then cleanElems rooted out es
                 else cleanElems rooted [''..''] es
         | x # out' \<Rightarrow>
             if x = ''..'' then
               (if rooted then cleanElems rooted out es
                else cleanElems rooted (''..'' # out) es)
             else cleanElems rooted out' es)
      else cleanElems rooted (e # out) es)"

text \<open>
  \<open>path.Clean(p)\<close>: the empty path gives \<open>.\<close>; a rooted path keeps its leading \<open>/\<close>;
  a relative path that cleans to nothing gives \<open>.\<close>.
\<close>

definition path_Clean :: "string \<Rightarrow> string" where
  "path_Clean p =
     (if p = [] then ''.''
      else if hd p = CHR ''/'' then CHR ''/'' # strings_Join (cleanElems True [] (strings_Split p))
      else if cleanElems False [] (strings_Split p) = [] then ''.''
      else strings_Join (cleanElems False [] (strings_Split p)))"

text \<open>
  \<open>path.Join(elem...)\<close>: empty elements before the first non-empty one are ignored, the
  rest is joined with \<open>/\<close> and cleaned; if every element is empty the result is the
  empty string.
\<close>

fun path_Join :: "string list \<Rightarrow> string" where
  "path_Join [] = []"
| "path_Join (e # es) =
     (if e = [] then path_Join es else path_Clean (strings_Join (e # es)))"

section \<open>Data model\<close>

text \<open>
  A Go panic is a value of type \<open>panic\<close>; a function that may panic returns
  \<open>panic + 'a\<close>. A Go \<open>error\<close> is a value of type \<open>error\<close>: \<open>Errorf\<close> carries the message
  of \<open>errors.Errorf\<close>, \<open>Wrap e msg\<close> is \<open>errors.Wrap(e, msg)\<close>. A function
  returning \<open>(T, error)\<close> returns a pair whose second component is \<open>None\<close> for \<open>nil\<close>.
\<close>

datatype panic = NilPointerDereference | IndexOutOfRange

datatype error = Errorf string | Wrap error string

text \<open>
  \<open>metav1.APIResource\<close> and \<open>metav1.APIResourceList\<close> (k8s.io/apimachinery), with the
  fields the code reads. The field names carry a prefix where two structs share a name.
\<close>

record APIResource =
  res_Name :: string
  res_Namespaced :: bool

record APIResourceList =
  GroupVersion :: string
  APIResources :: "APIResource list"

record Display =
  Provider :: string
  Resource :: string
  Operation :: string
  Description :: string

text \<open>\<open>IsDataAction\<close> is a \<open>*bool\<close>: \<open>None\<close> is the nil pointer.\<close>

record Operation =
  op_Name :: string
  op_Display :: Display
  op_IsDataAction :: "bool option"

record OperationList =
  Value :: "Operation list"
  NextLink :: string

record AuthorizationEntity =
  Id :: string

record AuthorizationActionInfo = AuthorizationEntity +
  IsDataAction :: bool

record DataAction =
  ActionInfo :: AuthorizationActionInfo
  IsNamespacedResource :: bool

type_synonym VerbAndActionsMap = "string \<rightharpoonup> DataAction"

type_synonym ResourceAndVerbMap = "string \<rightharpoonup> VerbAndActionsMap"

type_synonym OperationsMap = "string \<rightharpoonup> ResourceAndVerbMap"

definition NewVerbAndActionsMap :: VerbAndActionsMap where
  "NewVerbAndActionsMap = Map.empty"

definition NewResourceAndVerbMap :: ResourceAndVerbMap where
  "NewResourceAndVerbMap = Map.empty"

definition NewOperationsMap :: OperationsMap where
  "NewOperationsMap = Map.empty"

section \<open>createOperationsMap\<close>

text \<open>
  Lines 244-247: the group label of a resource list.
\<close>

definition groupOf :: "APIResourceList \<Rightarrow> string" where
  "groupOf resList =
     (if GroupVersion resList \<noteq> '''' \<and> GroupVersion resList \<noteq> ''v1''
      then hd (strings_Split (GroupVersion resList)) else ''v1'')"

text \<open>Lines 254-261: the action id that operation names are searched for.\<close>

definition actionIdOf :: "string \<Rightarrow> string \<Rightarrow> string \<Rightarrow> string" where
  "actionIdOf clusterType grp resourceName =
     path_Join [if grp \<noteq> ''v1'' then path_Join [clusterType, grp] else clusterType,
                resourceName]"

text \<open>Lines 289-292: the verb of a split operation name.\<close>

definition verbOf :: "string list \<Rightarrow> string" where
  "verbOf opNameArr =
     (let verb = opNameArr ! (length opNameArr - 1)
      in if verb = ''action''
         then path_Join [opNameArr ! (length opNameArr - 2), opNameArr ! (length opNameArr - 1)]
         else verb)"

text \<open>Lines 294-300: the record stored for an operation.\<close>

definition newDataAction :: "Operation \<Rightarrow> bool \<Rightarrow> DataAction" where
  "newDataAction operation namespaced =
     \<lparr>ActionInfo = \<lparr>Id = op_Name operation, IsDataAction = True\<rparr>,
      IsNamespacedResource = namespaced\<rparr>"

text \<open>
  Lines 302-310: the store \<open>operationsMap[group][resourceName][verb] = da\<close>, creating
  the inner maps when they are missing.
\<close>

definition store :: "OperationsMap \<Rightarrow> string \<Rightarrow> string \<Rightarrow> string \<Rightarrow> DataAction \<Rightarrow> OperationsMap" where
  "store operationsMap grp resourceName verb da =
     (let rm = (case operationsMap grp of None \<Rightarrow> NewResourceAndVerbMap | Some rm \<Rightarrow> rm);
          vm = (case rm resourceName of None \<Rightarrow> NewVerbAndActionsMap | Some vm \<Rightarrow> vm)
      in operationsMap(grp \<mapsto> rm(resourceName \<mapsto> vm(verb \<mapsto> da))))"

text \<open>
  Lines 264-311: the body of the loop over the operations. \<open>opNameArr[2]\<close> is read in
  both branches of the group test, and panics when the name has fewer than three
  segments.
\<close>

definition opStep ::
  "string \<Rightarrow> APIResource \<Rightarrow> string \<Rightarrow> OperationsMap \<Rightarrow> Operation \<Rightarrow> panic + OperationsMap" where
  "opStep grp apiResource actionId operationsMap operation =
     (if strings_Contains (op_Name operation) actionId then
        (let opNameArr = strings_Split (op_Name operation) in
         if length opNameArr \<le> 2 then Inl IndexOutOfRange
         else if grp \<noteq> ''v1'' \<and> grp \<noteq> opNameArr ! 2 then Inr operationsMap
         else if grp = ''v1'' \<and> res_Name apiResource \<noteq> opNameArr ! 2 then Inr operationsMap
         else Inr (store operationsMap grp (res_Name apiResource) (verbOf opNameArr)
                     (newDataAction operation (res_Namespaced apiResource))))
      else Inr operationsMap)"

text \<open>Lines 263-312: the loop over the operations, stopped by a panic.\<close>

fun opsLoop ::
  "string \<Rightarrow> APIResource \<Rightarrow> string \<Rightarrow> OperationsMap \<Rightarrow> Operation list \<Rightarrow> panic + OperationsMap" where
  "opsLoop grp apiResource actionId operationsMap [] = Inr operationsMap"
| "opsLoop grp apiResource actionId operationsMap (operation # rest) =
     (case opStep grp apiResource actionId operationsMap operation of
        Inl p \<Rightarrow> Inl p
      | Inr m \<Rightarrow> opsLoop grp apiResource actionId m rest)"

text \<open>Lines 249-313: the loop over the resources of one list; subresources are skipped.\<close>

fun resLoop ::
  "string \<Rightarrow> string \<Rightarrow> Operation list \<Rightarrow> OperationsMap \<Rightarrow> APIResource list \<Rightarrow> panic + OperationsMap" where
  "resLoop clusterType grp operationsList operationsMap [] = Inr operationsMap"
| "resLoop clusterType grp operationsList operationsMap (apiResource # rest) =
     (if strings_Contains (res_Name apiResource) ''/''
      then resLoop clusterType grp operationsList operationsMap rest
      else
        (case opsLoop grp apiResource (actionIdOf clusterType grp (res_Name apiResource))
                operationsMap operationsList of
           Inl p \<Rightarrow> Inl p
         | Inr m \<Rightarrow> resLoop clusterType grp operationsList m rest))"

text \<open>
  Lines 239-314: the loop over the resource lists. The list holds pointers; reading
  \<open>resList.APIResources\<close> through a nil pointer panics. Lists without resources are
  skipped.
\<close>

fun listsLoop ::
  "string \<Rightarrow> Operation list \<Rightarrow> OperationsMap \<Rightarrow> APIResourceList option list \<Rightarrow> panic + OperationsMap" where
  "listsLoop clusterType operationsList operationsMap [] = Inr operationsMap"
| "listsLoop clusterType operationsList operationsMap (None # rest) = Inl NilPointerDereference"
| "listsLoop clusterType operationsList operationsMap (Some resList # rest) =
     (if length (APIResources resList) = 0
      then listsLoop clusterType operationsList operationsMap rest
      else
        (case resLoop clusterType (groupOf resList) operationsList operationsMap
                (APIResources resList) of
           Inl p \<Rightarrow> Inl p
         | Inr m \<Rightarrow> listsLoop clusterType operationsList m rest))"

definition createOperationsMap ::
  "APIResourceList option list \<Rightarrow> Operation list \<Rightarrow> string \<Rightarrow> panic + OperationsMap" where
  "createOperationsMap apiResourcesList operationsList clusterType =
     listsLoop clusterType operationsList NewOperationsMap apiResourcesList"

text \<open>
  Reading the table: \<open>operationsMap[group][resourceName][verb]\<close> with its \<open>found\<close> flag
  (indexing a missing inner map finds nothing).
\<close>

definition lookup :: "OperationsMap \<Rightarrow> string \<Rightarrow> string \<Rightarrow> string \<Rightarrow> DataAction option" where
  "lookup operationsMap grp resourceName verb =
     (case operationsMap grp of
        None \<Rightarrow> None
      | Some rm \<Rightarrow> (case rm resourceName of None \<Rightarrow> None | Some vm \<Rightarrow> vm verb))"

text \<open>The entry of the table a call returned; \<open>Inl\<close> when the call panicked.\<close>

definition entryOf :: "panic + OperationsMap \<Rightarrow> string \<Rightarrow> string \<Rightarrow> string \<Rightarrow> panic + DataAction option" where
  "entryOf r grp resourceName verb =
     (case r of Inl p \<Rightarrow> Inl p | Inr m \<Rightarrow> Inr (lookup m grp resourceName verb))"

section \<open>NewDiscoverResourcesSettings\<close>

text \<open>
  \<open>fmt.Sprintf\<close> for a format with one \<open>%s\<close> verb and one string argument: the
  \<open>%s\<close> is replaced by the argument, every other byte is copied.
\<close>

fun fmt_Sprintf :: "string \<Rightarrow> string \<Rightarrow> string" where
  "fmt_Sprintf [] a = []"
| "fmt_Sprintf [c] a = [c]"
| "fmt_Sprintf (c # d # cs) a =
     (if c = CHR ''%'' \<and> d = CHR ''s'' then a @ cs else c # fmt_Sprintf (d # cs) a)"

definition ManagedClusters :: string where
  "ManagedClusters = ''Microsoft.ContainerService/managedClusters''"

definition Fleets :: string where
  "Fleets = ''Microsoft.ContainerService/fleets''"

definition ConnectedClusters :: string where
  "ConnectedClusters = ''Microsoft.Kubernetes/connectedClusters''"

definition OperationsEndpointFormatARC :: string where
  "OperationsEndpointFormatARC = ''%s/providers/Microsoft.Kubernetes/operations?api-version=2021-10-01''"

definition OperationsEndpointFormatAKS :: string where
  "OperationsEndpointFormatAKS = ''%s/providers/Microsoft.ContainerService/operations?api-version=2018-10-31''"

text \<open>
  \<open>azure.Environment\<close> (github.com/Azure/go-autorest), with the fields the code reads.
\<close>

record Environment =
  ResourceManagerEndpoint :: string
  ActiveDirectoryEndpoint :: string

text \<open>The fields of the settings carry the prefix \<open>settings_\<close>.\<close>

record DiscoverResourcesSettings =
  settings_clusterType :: string
  settings_environment :: Environment
  settings_operationsEndpoint :: string
  settings_aksLoginURL :: string
  settings_kubeconfigFilePath :: string
  settings_tenantID :: string
  settings_clientID :: string
  settings_clientSecret :: string

text \<open>
  Lines 165-198. \<open>azure.PublicCloud\<close> and \<open>azure.EnvironmentFromName\<close> belong to the
  go-autorest library and are parameters of the model: \<open>PublicCloud\<close> is the default
  environment, \<open>EnvironmentFromName name\<close> returns the environment and the error
  (\<open>None\<close> for \<open>nil\<close>) of the library call. The result is the pair the Go function
  returns: the settings pointer (\<open>None\<close> for \<open>nil\<close>) and the error.
\<close>

definition NewDiscoverResourcesSettings ::
  "Environment \<Rightarrow> (string \<Rightarrow> Environment \<times> error option) \<Rightarrow>
   string \<Rightarrow> string \<Rightarrow> string \<Rightarrow> string \<Rightarrow> string \<Rightarrow> string \<Rightarrow> string \<Rightarrow>
   DiscoverResourcesSettings option \<times> error option" where
  "NewDiscoverResourcesSettings PublicCloud EnvironmentFromName
       clusterType environment loginURL kubeconfigFilePath tenantID clientID clientSecret =
     (case (if environment \<noteq> '''' then EnvironmentFromName environment else (PublicCloud, None)) of
        (env, Some err) \<Rightarrow> (None, Some (Wrap err ''Failed to parse environment for Azure.''))
      | (env, None) \<Rightarrow>
          (let settings =
                 \<lparr>settings_clusterType = clusterType,
                  settings_environment = env,
                  settings_operationsEndpoint = '''',
                  settings_aksLoginURL = loginURL,
                  settings_kubeconfigFilePath = kubeconfigFilePath,
                  settings_tenantID = tenantID,
                  settings_clientID = clientID,
                  settings_clientSecret = clientSecret\<rparr>
           in if clusterType = ConnectedClusters then
                (Some (settings\<lparr>settings_operationsEndpoint :=
                   fmt_Sprintf OperationsEndpointFormatARC (ResourceManagerEndpoint env)\<rparr>), None)
              else if clusterType = ManagedClusters then
                (Some (settings\<lparr>settings_operationsEndpoint :=
                   fmt_Sprintf OperationsEndpointFormatAKS (ResourceManagerEndpoint env)\<rparr>), None)
              else if clusterType = Fleets then
                (Some (settings\<lparr>settings_operationsEndpoint :=
                   fmt_Sprintf OperationsEndpointFormatAKS (ResourceManagerEndpoint env)\<rparr>), None)
              else
                (None, Some (Errorf (''Failed to create endpoint for Get Operations call. Cluster type ''
                                     @ clusterType @ '' is not supported.'')))))"

section \<open>fetchDataActionsList and DiscoverResources\<close>

text \<open>
  Lines 411-416: the loop that keeps the data actions of the cluster type. The
  condition dereferences \<open>op.IsDataAction\<close> first, which panics on a nil pointer.
\<close>

fun filterOperations :: "string \<Rightarrow> Operation list \<Rightarrow> Operation list \<Rightarrow> panic + Operation list" where
  "filterOperations clusterType finalOperations [] = Inr finalOperations"
| "filterOperations clusterType finalOperations (operation # rest) =
     (case op_IsDataAction operation of
        None \<Rightarrow> Inl NilPointerDereference
      | Some isDataAction \<Rightarrow>
          if isDataAction \<and> strings_Contains (op_Name operation) clusterType
          then filterOperations clusterType (finalOperations @ [operation]) rest
          else filterOperations clusterType finalOperations rest)"

text \<open>
  Lines 354-425. The request, the token, the HTTP call and the decoding of the body
  (lines 355-409) are outside the model; their outcome is the argument \<open>response\<close>:
  \<open>Inl err\<close> when one of them returned the error \<open>err\<close>, \<open>Inr operationsList\<close> with the
  decoded body otherwise.
\<close>

definition fetchDataActionsList ::
  "error + OperationList \<Rightarrow> DiscoverResourcesSettings \<Rightarrow> panic + (Operation list \<times> error option)" where
  "fetchDataActionsList response settings =
     (case response of
        Inl err \<Rightarrow> Inr ([], Some err)
      | Inr operationsList \<Rightarrow>
          (case filterOperations (settings_clusterType settings) [] (Value operationsList) of
             Inl p \<Rightarrow> Inl p
           | Inr finalOperations \<Rightarrow> Inr (finalOperations, None)))"

text \<open>
  Lines 207-234. \<open>apiResources\<close> is what \<open>fetchApiResources\<close> returned (the cluster is
  outside the model), \<open>response\<close> the outcome of the HTTP exchange of
  \<open>fetchDataActionsList\<close>. The metrics are not modelled.
\<close>

definition DiscoverResources ::
  "APIResourceList option list \<times> error option \<Rightarrow> error + OperationList \<Rightarrow>
   DiscoverResourcesSettings \<Rightarrow> panic + (OperationsMap \<times> error option)" where
  "DiscoverResources apiResources response settings =
     (let operationsMap = Map.empty in
      case apiResources of
        (apiResourcesList, Some err) \<Rightarrow>
          Inr (operationsMap, Some (Wrap err ''Failed to fetch list of api-resources from apiserver.''))
      | (apiResourcesList, None) \<Rightarrow>
          (case fetchDataActionsList response settings of
             Inl p \<Rightarrow> Inl p
           | Inr (operationsList, Some err) \<Rightarrow>
               Inr (operationsMap, Some (Wrap err ''Failed to fetch operations from Azure.''))
           | Inr (operationsList, None) \<Rightarrow>
               (case createOperationsMap apiResourcesList operationsList
                       (settings_clusterType settings) of
                  Inl p \<Rightarrow> Inl p
                | Inr m \<Rightarrow> Inr (m, None))))"

section \<open>Notions used to state the properties\<close>

text \<open>
  An operation maps to the triple of a group, a resource name and a verb when the loop
  body stores it there: its name contains the action id, has a segment with index 2,
  that segment passes the test of lines 277-287, and its verb is the given one.
\<close>

definition mapsTo :: "string \<Rightarrow> string \<Rightarrow> string \<Rightarrow> string \<Rightarrow> Operation \<Rightarrow> bool" where
  "mapsTo clusterType grp resourceName verb operation =
     (strings_Contains (op_Name operation) (actionIdOf clusterType grp resourceName)
      \<and> 2 < length (strings_Split (op_Name operation))
      \<and> strings_Split (op_Name operation) ! 2 = (if grp \<noteq> ''v1'' then grp else resourceName)
      \<and> verbOf (strings_Split (op_Name operation)) = verb)"

text \<open>The last operation of a list that maps to a triple.\<close>

fun lastMapsTo :: "string \<Rightarrow> string \<Rightarrow> string \<Rightarrow> string \<Rightarrow> Operation list \<Rightarrow> Operation option" where
  "lastMapsTo clusterType grp resourceName verb [] = None"
| "lastMapsTo clusterType grp resourceName verb (operation # rest) =
     (case lastMapsTo clusterType grp resourceName verb rest of
        Some later \<Rightarrow> Some later
      | None \<Rightarrow> if mapsTo clusterType grp resourceName verb operation then Some operation else None)"

text \<open>
  What \<open>azure.EnvironmentFromName\<close> returns for a name that matches no environment: the
  zero environment and an error.
\<close>

definition unknownEnvironment :: "string \<Rightarrow> Environment \<times> error option" where
  "unknownEnvironment name =
     (\<lparr>ResourceManagerEndpoint = '''', ActiveDirectoryEndpoint = ''''\<rparr>,
      Some (Errorf (''autorest/azure: There is no cloud environment matching the name '' @ name)))"

text \<open>
  An ordinary path element: not empty, not \<open>.\<close> and not \<open>..\<close>, the elements \<open>path.Clean\<close>
  rewrites. An ordinary path has only ordinary elements.
\<close>

definition plainElem :: "string \<Rightarrow> bool" where
  "plainElem e = (e \<noteq> '''' \<and> e \<noteq> ''.'' \<and> e \<noteq> ''..'')"

definition plainPath :: "string \<Rightarrow> bool" where
  "plainPath p = list_all plainElem (strings_Split p)"

text \<open>Values for concrete inputs: an operation with an empty display, flagged as a data action.\<close>

definition dataAction :: "string \<Rightarrow> Operation" where
  "dataAction name =
     \<lparr>op_Name = name,
      op_Display = \<lparr>Provider = '''', Resource = '''', Operation = '''', Description = ''''\<rparr>,
      op_IsDataAction = Some True\<rparr>"

section \<open>Auxiliary facts\<close>

subsection \<open>Reading the table after a store and after the loop over the operations\<close>

lemma lookup_empty: "lookup Map.empty g r v = None"
  by (simp add: lookup_def)

lemma lookup_store:
  "lookup (store m g r v da) g' r' v' =
     (if g' = g \<and> r' = r \<and> v' = v then Some da else lookup m g' r' v')"
  by (simp add: lookup_def store_def Let_def NewResourceAndVerbMap_def NewVerbAndActionsMap_def
           split: option.splits)

lemma opStep_lookup:
  assumes "opStep g res (actionIdOf ct g (res_Name res)) m operation = Inr m'"
  shows "lookup m' g' r' v' =
     (if g' = g \<and> r' = res_Name res \<and> mapsTo ct g (res_Name res) v' operation
      then Some (newDataAction operation (res_Namespaced res)) else lookup m g' r' v')"
  using assms
  by (auto simp: opStep_def mapsTo_def Let_def lookup_store split: if_splits)

lemma opsLoop_lookup:
  assumes "opsLoop g res (actionIdOf ct g (res_Name res)) m ops = Inr m'"
  shows "lookup m' g' r' v' =
     (if g' = g \<and> r' = res_Name res
      then (case lastMapsTo ct g r' v' ops of
              Some operation \<Rightarrow> Some (newDataAction operation (res_Namespaced res))
            | None \<Rightarrow> lookup m g' r' v')
      else lookup m g' r' v')"
  using assms
proof (induction ops arbitrary: m)
  case Nil
  then show ?case by simp
next
  case (Cons operation rest)
  from Cons.prems obtain m1 where
    step: "opStep g res (actionIdOf ct g (res_Name res)) m operation = Inr m1"
    and loop: "opsLoop g res (actionIdOf ct g (res_Name res)) m1 rest = Inr m'"
    by (auto split: sum.splits)
  show ?case
    unfolding Cons.IH [OF loop] opStep_lookup [OF step]
    by (auto split: option.splits)
qed

lemma lastMapsTo_Some:
  "lastMapsTo ct g r v ops = Some operation \<Longrightarrow>
   \<exists>ops1 ops2. ops = ops1 @ operation # ops2 \<and> mapsTo ct g r v operation
     \<and> (\<forall>later \<in> set ops2. \<not> mapsTo ct g r v later)"
proof (induction ops)
  case Nil
  then show ?case by simp
next
  case (Cons x rest)
  show ?case
  proof (cases "lastMapsTo ct g r v rest")
    case None
    have none: "\<forall>later \<in> set rest. \<not> mapsTo ct g r v later"
      using None by (induction rest) (auto split: option.splits if_splits)
    from Cons.prems None have "mapsTo ct g r v x" and "operation = x"
      by (auto split: if_splits)
    with none have "x # rest = [] @ operation # rest \<and> mapsTo ct g r v operation
        \<and> (\<forall>later \<in> set rest. \<not> mapsTo ct g r v later)" by simp
    then show ?thesis by blast
  next
    case (Some y)
    with Cons.prems have "lastMapsTo ct g r v rest = Some operation" by simp
    from Cons.IH [OF this] obtain ops1 ops2 where
      "rest = ops1 @ operation # ops2" "mapsTo ct g r v operation"
      "\<forall>later \<in> set ops2. \<not> mapsTo ct g r v later" by blast
    then have "x # rest = (x # ops1) @ operation # ops2 \<and> mapsTo ct g r v operation
        \<and> (\<forall>later \<in> set ops2. \<not> mapsTo ct g r v later)" by simp
    then show ?thesis by blast
  qed
qed

lemma lastMapsTo_None: "lastMapsTo ct g r v ops = None \<longleftrightarrow> (\<forall>x \<in> set ops. \<not> mapsTo ct g r v x)"
  by (induction ops) (auto split: option.splits)

lemma lastMapsTo_append:
  "mapsTo ct g r v operation \<Longrightarrow> \<forall>later \<in> set ops2. \<not> mapsTo ct g r v later \<Longrightarrow>
   lastMapsTo ct g r v (ops1 @ operation # ops2) = Some operation"
proof (induction ops1)
  case Nil
  then show ?case using lastMapsTo_None [of ct g r v ops2] by simp
next
  case (Cons x ops1)
  then show ?case by simp
qed

subsection \<open>The endpoint formats, the cluster types and the filter\<close>

lemma sprintf_ARC:
  "fmt_Sprintf OperationsEndpointFormatARC a
   = a @ ''/providers/Microsoft.Kubernetes/operations?api-version=2021-10-01''"
  by (simp add: OperationsEndpointFormatARC_def)

lemma sprintf_AKS:
  "fmt_Sprintf OperationsEndpointFormatAKS a
   = a @ ''/providers/Microsoft.ContainerService/operations?api-version=2018-10-31''"
  by (simp add: OperationsEndpointFormatAKS_def)

lemma clusterTypes_distinct:
  "ManagedClusters \<noteq> ConnectedClusters" "Fleets \<noteq> ConnectedClusters" "ManagedClusters \<noteq> Fleets"
  by (simp_all add: ManagedClusters_def ConnectedClusters_def Fleets_def)

lemma filterOperations_nil:
  "\<exists>operation \<in> set ops. op_IsDataAction operation = None \<Longrightarrow>
   filterOperations clusterType acc ops = Inl NilPointerDereference"
  by (induction ops arbitrary: acc) (auto split: option.splits)

subsection \<open>Invariants of the loops over the catalog\<close>

lemma resLoop_invariant:
  assumes "resLoop ct g ops m rs = Inr m'" and "P m"
    and step: "\<And>m m' res. P m \<Longrightarrow> res \<in> set rs \<Longrightarrow> \<not> strings_Contains (res_Name res) ''/'' \<Longrightarrow>
            opsLoop g res (actionIdOf ct g (res_Name res)) m ops = Inr m' \<Longrightarrow> P m'"
  shows "P m'"
  using assms
proof (induction rs arbitrary: m)
  case Nil
  then show ?case by simp
next
  case (Cons res rest)
  have step': "P b" if "P a" "r \<in> set rest" "\<not> strings_Contains (res_Name r) ''/''"
      "opsLoop g r (actionIdOf ct g (res_Name r)) a ops = Inr b" for a b r
  proof (rule Cons.prems(3) [OF that(1) _ that(3) that(4)])
    show "r \<in> set (res # rest)" using that(2) by simp
  qed
  show ?case
  proof (cases "strings_Contains (res_Name res) ''/''")
    case True
    with Cons.prems(1) have "resLoop ct g ops m rest = Inr m'" by simp
    then show ?thesis using Cons.prems(2) step' by (rule Cons.IH)
  next
    case False
    with Cons.prems(1) obtain m1 where
      inner: "opsLoop g res (actionIdOf ct g (res_Name res)) m ops = Inr m1"
      and outer: "resLoop ct g ops m1 rest = Inr m'"
      by (auto split: sum.splits)
    have "P m1"
    proof (rule Cons.prems(3) [OF Cons.prems(2) _ False inner])
      show "res \<in> set (res # rest)" by simp
    qed
    with outer show ?thesis using step' by (rule Cons.IH)
  qed
qed

lemma listsLoop_invariant:
  assumes "listsLoop ct ops m api = Inr m'" and "P m"
    and step: "\<And>m m' resList res. P m \<Longrightarrow> Some resList \<in> set api \<Longrightarrow>
            res \<in> set (APIResources resList) \<Longrightarrow> \<not> strings_Contains (res_Name res) ''/'' \<Longrightarrow>
            opsLoop (groupOf resList) res (actionIdOf ct (groupOf resList) (res_Name res)) m ops
              = Inr m' \<Longrightarrow> P m'"
  shows "P m'"
  using assms
proof (induction api arbitrary: m)
  case Nil
  then show ?case by simp
next
  case (Cons x rest)
  have step': "P b" if "P a" "Some rl \<in> set rest" "r \<in> set (APIResources rl)"
      "\<not> strings_Contains (res_Name r) ''/''"
      "opsLoop (groupOf rl) r (actionIdOf ct (groupOf rl) (res_Name r)) a ops = Inr b"
    for a b rl r
  proof (rule Cons.prems(3) [OF that(1) _ that(3) that(4) that(5)])
    show "Some rl \<in> set (x # rest)" using that(2) by simp
  qed
  show ?case
  proof (cases x)
    case None
    with Cons.prems(1) show ?thesis by simp
  next
    case (Some resList)
    show ?thesis
    proof (cases "length (APIResources resList) = 0")
      case True
      with Cons.prems(1) Some have "listsLoop ct ops m rest = Inr m'" by simp
      then show ?thesis using Cons.prems(2) step' by (rule Cons.IH)
    next
      case False
      with Cons.prems(1) Some obtain m1 where
        inner: "resLoop ct (groupOf resList) ops m (APIResources resList) = Inr m1"
        and outer: "listsLoop ct ops m1 rest = Inr m'"
        by (auto split: sum.splits)
      have "P m1"
      proof (rule resLoop_invariant [where P = P, OF inner Cons.prems(2)])
        fix a b r
        assume "P a" "r \<in> set (APIResources resList)" "\<not> strings_Contains (res_Name r) ''/''"
          "opsLoop (groupOf resList) r (actionIdOf ct (groupOf resList) (res_Name r)) a ops = Inr b"
        moreover have "Some resList \<in> set (x # rest)" using Some by simp
        ultimately show "P b" using Cons.prems(3) by blast
      qed
      with outer show ?thesis using step' by (rule Cons.IH)
    qed
  qed
qed

lemma createOperationsMap_invariant:
  assumes "createOperationsMap api ops ct = Inr t" and "P Map.empty"
    and step: "\<And>m m' resList res. P m \<Longrightarrow> Some resList \<in> set api \<Longrightarrow>
            res \<in> set (APIResources resList) \<Longrightarrow> \<not> strings_Contains (res_Name res) ''/'' \<Longrightarrow>
            opsLoop (groupOf resList) res (actionIdOf ct (groupOf resList) (res_Name res)) m ops
              = Inr m' \<Longrightarrow> P m'"
  shows "P t"
proof (rule listsLoop_invariant [of ct ops Map.empty api t P])
  show "listsLoop ct ops Map.empty api = Inr t"
    using assms(1) by (simp add: createOperationsMap_def NewOperationsMap_def)
qed (use assms(2) step in blast)+

text \<open>Every entry of the table is the record of the last operation that maps to it.\<close>

lemma table_entry_origin:
  assumes ok: "createOperationsMap api ops ct = Inr t"
    and entry: "lookup t g r v = Some da"
  shows "\<exists>resList res operation.
           Some resList \<in> set api \<and> res \<in> set (APIResources resList)
         \<and> \<not> strings_Contains (res_Name res) ''/''
         \<and> g = groupOf resList \<and> r = res_Name res
         \<and> lastMapsTo ct g r v ops = Some operation
         \<and> da = newDataAction operation (res_Namespaced res)"
proof -
  define P where "P m \<longleftrightarrow> (\<forall>g r v da. lookup m g r v = Some da \<longrightarrow>
      (\<exists>resList res operation.
           Some resList \<in> set api \<and> res \<in> set (APIResources resList)
         \<and> \<not> strings_Contains (res_Name res) ''/''
         \<and> g = groupOf resList \<and> r = res_Name res
         \<and> lastMapsTo ct g r v ops = Some operation
         \<and> da = newDataAction operation (res_Namespaced res)))" for m
  have "P t"
  proof (rule createOperationsMap_invariant [OF ok])
    show "P Map.empty" by (simp add: P_def lookup_empty)
  next
    fix m m' resList res
    assume pm: "P m" and a: "Some resList \<in> set api" "res \<in> set (APIResources resList)"
      "\<not> strings_Contains (res_Name res) ''/''"
      and loop: "opsLoop (groupOf resList) res
                   (actionIdOf ct (groupOf resList) (res_Name res)) m ops = Inr m'"
    show "P m'"
      unfolding P_def
    proof (intro allI impI)
      fix g r v da
      assume e: "lookup m' g r v = Some da"
      show "\<exists>resList res operation.
           Some resList \<in> set api \<and> res \<in> set (APIResources resList)
         \<and> \<not> strings_Contains (res_Name res) ''/''
         \<and> g = groupOf resList \<and> r = res_Name res
         \<and> lastMapsTo ct g r v ops = Some operation
         \<and> da = newDataAction operation (res_Namespaced res)"
      proof (cases "g = groupOf resList \<and> r = res_Name res
                    \<and> lastMapsTo ct g r v ops \<noteq> None")
        case True
        then obtain operation where l: "lastMapsTo ct g r v ops = Some operation" by auto
        with e True have "da = newDataAction operation (res_Namespaced res)"
          by (simp add: opsLoop_lookup [OF loop])
        with a True l show ?thesis by blast
      next
        case False
        with e have "lookup m g r v = Some da"
          by (auto simp: opsLoop_lookup [OF loop] split: if_splits option.splits)
        with pm show ?thesis unfolding P_def by blast
      qed
    qed
  qed
  with entry show ?thesis unfolding P_def by blast
qed

lemma resLoop_complete:
  assumes "resLoop ct g ops m rs = Inr m'"
    and "lookup m g' r' v' \<noteq> None
         \<or> (g' = g \<and> lastMapsTo ct g r' v' ops \<noteq> None
            \<and> (\<exists>res \<in> set rs. \<not> strings_Contains (res_Name res) ''/'' \<and> res_Name res = r'))"
  shows "lookup m' g' r' v' \<noteq> None"
  using assms
proof (induction rs arbitrary: m)
  case Nil
  then show ?case by simp
next
  case (Cons res rest)
  show ?case
  proof (cases "strings_Contains (res_Name res) ''/''")
    case True
    with Cons.prems(1) have l: "resLoop ct g ops m rest = Inr m'" by simp
    from Cons.prems(2) True show ?thesis by (intro Cons.IH [OF l]) auto
  next
    case False
    with Cons.prems(1) obtain m1 where
      inner: "opsLoop g res (actionIdOf ct g (res_Name res)) m ops = Inr m1"
      and outer: "resLoop ct g ops m1 rest = Inr m'"
      by (auto split: sum.splits)
    show ?thesis
    proof (rule Cons.IH [OF outer])
      show "lookup m1 g' r' v' \<noteq> None
         \<or> (g' = g \<and> lastMapsTo ct g r' v' ops \<noteq> None
            \<and> (\<exists>res \<in> set rest. \<not> strings_Contains (res_Name res) ''/'' \<and> res_Name res = r'))"
        using Cons.prems(2)
        by (auto simp: opsLoop_lookup [OF inner] split: option.splits)
    qed
  qed
qed

lemma listsLoop_complete:
  assumes "listsLoop ct ops m api = Inr m'"
    and "lookup m g' r' v' \<noteq> None
         \<or> (lastMapsTo ct g' r' v' ops \<noteq> None
            \<and> (\<exists>resList res. Some resList \<in> set api \<and> res \<in> set (APIResources resList)
                  \<and> \<not> strings_Contains (res_Name res) ''/''
                  \<and> groupOf resList = g' \<and> res_Name res = r'))"
  shows "lookup m' g' r' v' \<noteq> None"
  using assms
proof (induction api arbitrary: m)
  case Nil
  then show ?case by simp
next
  case (Cons x rest)
  show ?case
  proof (cases x)
    case None
    with Cons.prems(1) show ?thesis by simp
  next
    case (Some resList)
    show ?thesis
    proof (cases "length (APIResources resList) = 0")
      case True
      with Cons.prems(1) Some have l: "listsLoop ct ops m rest = Inr m'" by simp
      from Cons.prems(2) True Some show ?thesis by (intro Cons.IH [OF l]) auto
    next
      case False
      with Cons.prems(1) Some obtain m1 where
        inner: "resLoop ct (groupOf resList) ops m (APIResources resList) = Inr m1"
        and outer: "listsLoop ct ops m1 rest = Inr m'"
        by (auto split: sum.splits)
      show ?thesis
      proof (rule Cons.IH [OF outer])
        show "lookup m1 g' r' v' \<noteq> None
         \<or> (lastMapsTo ct g' r' v' ops \<noteq> None
            \<and> (\<exists>resList res. Some resList \<in> set rest \<and> res \<in> set (APIResources resList)
                  \<and> \<not> strings_Contains (res_Name res) ''/''
                  \<and> groupOf resList = g' \<and> res_Name res = r'))"
          using Cons.prems(2) Some resLoop_complete [OF inner, of g' r' v']
          by auto
      qed
    qed
  qed
qed

lemma table_entry_exists:
  assumes "createOperationsMap api ops ct = Inr t"
    and "Some resList \<in> set api" and "res \<in> set (APIResources resList)"
    and "\<not> strings_Contains (res_Name res) ''/''"
    and "lastMapsTo ct (groupOf resList) (res_Name res) v ops = Some operation"
  shows "\<exists>da. lookup t (groupOf resList) (res_Name res) v = Some da"
  using listsLoop_complete [of ct ops Map.empty api t "groupOf resList" "res_Name res" v] assms
  by (auto simp: createOperationsMap_def NewOperationsMap_def)

subsection \<open>Splitting and searching strings\<close>

lemma strings_Split_not_Nil: "strings_Split s \<noteq> []"
  by (induction s) (auto split: list.splits)

lemma length_strings_Split: "length (strings_Split s) = Suc (count_list s CHR ''/'')"
  by (induction s) (auto split: list.splits simp: strings_Split_not_Nil)

lemma strings_Split_no_slash: "e \<in> set (strings_Split s) \<Longrightarrow> CHR ''/'' \<notin> set e"
  by (induction s arbitrary: e) (auto split: list.splits if_splits)

lemma strings_Split_plain: "CHR ''/'' \<notin> set s \<Longrightarrow> strings_Split s = [s]"
  by (induction s) auto

lemma strings_Split_append:
  "strings_Split (a @ CHR ''/'' # b) = strings_Split a @ strings_Split b"
  by (induction a) (auto split: list.splits simp: strings_Split_not_Nil)

lemma strings_Join_Split: "strings_Join (strings_Split s) = s"
proof (induction s)
  case Nil
  then show ?case by simp
next
  case (Cons c cs)
  show ?case
  proof (cases "c = CHR ''/''")
    case True
    then show ?thesis using Cons.IH by (cases "strings_Split cs") (auto simp: strings_Split_not_Nil)
  next
    case False
    obtain x xs where s: "strings_Split cs = x # xs"
      using strings_Split_not_Nil [of cs] by (cases "strings_Split cs") auto
    with Cons.IH False show ?thesis by (cases xs) auto
  qed
qed

lemma hasPrefix_iff: "hasPrefix s p \<longleftrightarrow> (\<exists>q. s = p @ q)"
  by (induction s p rule: hasPrefix.induct) auto

lemma strings_Contains_iff: "strings_Contains s sub \<longleftrightarrow> (\<exists>p q. s = p @ sub @ q)"
proof (induction s)
  case Nil
  then show ?case by (auto simp: hasPrefix_iff)
next
  case (Cons c cs)
  show ?case
  proof
    assume "strings_Contains (c # cs) sub"
    then consider "hasPrefix (c # cs) sub" | "strings_Contains cs sub" by auto
    then show "\<exists>p q. c # cs = p @ sub @ q"
    proof cases
      case 1
      then obtain q where "c # cs = [] @ sub @ q" by (auto simp: hasPrefix_iff)
      then show ?thesis by blast
    next
      case 2
      with Cons.IH obtain p q where "cs = p @ sub @ q" by blast
      then have "c # cs = (c # p) @ sub @ q" by simp
      then show ?thesis by blast
    qed
  next
    assume "\<exists>p q. c # cs = p @ sub @ q"
    then obtain p q where pq: "c # cs = p @ sub @ q" by blast
    show "strings_Contains (c # cs) sub"
    proof (cases p)
      case Nil
      with pq have "hasPrefix (c # cs) sub" by (auto simp: hasPrefix_iff)
      then show ?thesis by simp
    next
      case (Cons d p')
      with pq have "cs = p' @ sub @ q" by simp
      with Cons.IH have "strings_Contains cs sub" by blast
      then show ?thesis by simp
    qed
  qed
qed

lemma strings_Contains_slash: "strings_Contains s ''/'' \<longleftrightarrow> CHR ''/'' \<in> set s"
  by (induction s) auto

lemma strings_Contains_count:
  "strings_Contains s sub \<Longrightarrow> count_list sub c \<le> count_list s c"
  by (auto simp: strings_Contains_iff)

lemma strings_Contains_segments:
  assumes "strings_Contains s sub" and "2 \<le> count_list sub CHR ''/''"
  shows "2 < length (strings_Split s)"
  using strings_Contains_count [OF assms(1), of "CHR ''/''"] assms(2)
  by (simp add: length_strings_Split)

subsection \<open>Paths of ordinary elements\<close>

lemma cleanElems_plain:
  "list_all plainElem es \<Longrightarrow> cleanElems rooted out es = rev out @ es"
  by (induction es arbitrary: out) (auto simp: plainElem_def)

lemma plainPath_not_rooted:
  assumes "plainPath p"
  shows "p \<noteq> []" and "hd p \<noteq> CHR ''/''"
proof -
  show "p \<noteq> []" using assms by (auto simp: plainPath_def plainElem_def)
  then obtain c cs where p: "p = c # cs" by (cases p) auto
  show "hd p \<noteq> CHR ''/''"
  proof
    assume "hd p = CHR ''/''"
    with p have "strings_Split p = [] # strings_Split cs" by simp
    with assms show False by (simp add: plainPath_def plainElem_def)
  qed
qed

lemma path_Clean_plain:
  assumes "plainPath p"
  shows "path_Clean p = p"
proof -
  have "cleanElems False [] (strings_Split p) = strings_Split p"
    using assms by (simp add: cleanElems_plain plainPath_def)
  then show ?thesis
    using plainPath_not_rooted [OF assms]
    by (simp add: path_Clean_def strings_Split_not_Nil strings_Join_Split)
qed

lemma plainPath_append:
  assumes "plainPath a" and "plainElem b" and "CHR ''/'' \<notin> set b"
  shows "plainPath (a @ CHR ''/'' # b)"
  using assms by (simp add: plainPath_def strings_Split_append strings_Split_plain)

lemma path_Join_plain:
  assumes "plainPath a" and "plainElem b" and "CHR ''/'' \<notin> set b"
  shows "path_Join [a, b] = a @ CHR ''/'' # b"
  using plainPath_not_rooted(1) [OF assms(1)] path_Clean_plain [OF plainPath_append [OF assms]]
  by simp


lemma groupOf_no_slash: "CHR ''/'' \<notin> set (groupOf resList)"
proof -
  have "hd (strings_Split s) \<in> set (strings_Split s)" for s
    by (simp add: strings_Split_not_Nil)
  then have "CHR ''/'' \<notin> set (hd (strings_Split s))" for s
    using strings_Split_no_slash by blast
  then show ?thesis by (simp add: groupOf_def)
qed

lemma actionIdOf_plain:
  assumes "plainPath ct" and "plainElem g" and "CHR ''/'' \<notin> set g"
    and "plainElem r" and "CHR ''/'' \<notin> set r"
  shows "actionIdOf ct g r =
           (if g \<noteq> ''v1'' then ct @ CHR ''/'' # g @ CHR ''/'' # r else ct @ CHR ''/'' # r)"
proof (cases "g = ''v1''")
  case True
  then show ?thesis using path_Join_plain [OF assms(1,4,5)] by (simp add: actionIdOf_def)
next
  case False
  have "path_Join [ct, g] = ct @ CHR ''/'' # g" by (rule path_Join_plain [OF assms(1,2,3)])
  moreover have "path_Join [ct @ CHR ''/'' # g, r] = (ct @ CHR ''/'' # g) @ CHR ''/'' # r"
    by (rule path_Join_plain [OF plainPath_append [OF assms(1,2,3)] assms(4,5)])
  ultimately show ?thesis using False by (simp add: actionIdOf_def)
qed

lemma actionIdOf_slashes:
  assumes "plainPath ct" and "CHR ''/'' \<in> set ct" and "plainElem g" and "CHR ''/'' \<notin> set g"
    and "plainElem r" and "CHR ''/'' \<notin> set r"
  shows "2 \<le> count_list (actionIdOf ct g r) CHR ''/''"
proof -
  have "0 < count_list ct CHR ''/''" using assms(2) by (induction ct) auto
  then show ?thesis by (simp add: actionIdOf_plain [OF assms(1,3,4,5,6)])
qed

subsection \<open>Runs that do not panic\<close>

lemma opStep_ok:
  assumes "2 \<le> count_list aid CHR ''/''"
  shows "\<exists>m'. opStep g res aid m operation = Inr m'"
  using strings_Contains_segments [OF _ assms, of "op_Name operation"]
  by (auto simp: opStep_def Let_def)

lemma opsLoop_ok:
  assumes "2 \<le> count_list aid CHR ''/''"
  shows "\<exists>m'. opsLoop g res aid m ops = Inr m'"
proof (induction ops arbitrary: m)
  case Nil
  then show ?case by simp
next
  case (Cons operation rest)
  from opStep_ok [OF assms] obtain m1 where "opStep g res aid m operation = Inr m1" by blast
  with Cons.IH [of m1] show ?case by simp
qed

lemma resLoop_ok:
  assumes "\<forall>res \<in> set rs. \<not> strings_Contains (res_Name res) ''/'' \<longrightarrow>
             2 \<le> count_list (actionIdOf ct g (res_Name res)) CHR ''/''"
  shows "\<exists>m'. resLoop ct g ops m rs = Inr m'"
  using assms
proof (induction rs arbitrary: m)
  case Nil
  then show ?case by simp
next
  case (Cons res rest)
  show ?case
  proof (cases "strings_Contains (res_Name res) ''/''")
    case True
    with Cons show ?thesis by simp
  next
    case False
    with Cons.prems have "2 \<le> count_list (actionIdOf ct g (res_Name res)) CHR ''/''" by simp
    from opsLoop_ok [OF this] obtain m1 where
      "opsLoop g res (actionIdOf ct g (res_Name res)) m ops = Inr m1" by blast
    moreover from Cons obtain m' where "resLoop ct g ops m1 rest = Inr m'" by fastforce
    ultimately show ?thesis using False by simp
  qed
qed

lemma listsLoop_ok:
  assumes "\<forall>resList res. Some resList \<in> set api \<and> res \<in> set (APIResources resList)
             \<and> \<not> strings_Contains (res_Name res) ''/'' \<longrightarrow>
             2 \<le> count_list (actionIdOf ct (groupOf resList) (res_Name res)) CHR ''/''"
  shows "listsLoop ct ops m api \<noteq> Inl IndexOutOfRange
       \<and> (None \<notin> set api \<longrightarrow> (\<exists>m'. listsLoop ct ops m api = Inr m'))"
  using assms
proof (induction api arbitrary: m)
  case Nil
  then show ?case by simp
next
  case (Cons x rest)
  show ?case
  proof (cases x)
    case None
    then show ?thesis by simp
  next
    case (Some resList)
    have rest: "listsLoop ct ops a rest \<noteq> Inl IndexOutOfRange
       \<and> (None \<notin> set rest \<longrightarrow> (\<exists>m'. listsLoop ct ops a rest = Inr m'))" for a
      using Cons.prems by (intro Cons.IH) auto
    have "\<forall>res \<in> set (APIResources resList). \<not> strings_Contains (res_Name res) ''/'' \<longrightarrow>
             2 \<le> count_list (actionIdOf ct (groupOf resList) (res_Name res)) CHR ''/''"
      using Cons.prems Some by auto
    from resLoop_ok [OF this] obtain m1 where
      "resLoop ct (groupOf resList) ops m (APIResources resList) = Inr m1" by blast
    with rest [of m1] rest [of m] Some show ?thesis by simp
  qed
qed

subsection \<open>The resource-name keys\<close>

lemma store_keys:
  assumes "store m g r v da g' = Some rm'" and "rm' r' = Some vm'"
  shows "(g' = g \<and> r' = r) \<or> (\<exists>rm vm. m g' = Some rm \<and> rm r' = Some vm)"
  using assms
  by (auto simp: store_def Let_def NewResourceAndVerbMap_def NewVerbAndActionsMap_def
           split: option.splits if_splits)

lemma opStep_keys:
  assumes "opStep g res aid m operation = Inr m'" and "m' g' = Some rm'" and "rm' r' = Some vm'"
  shows "(g' = g \<and> r' = res_Name res) \<or> (\<exists>rm vm. m g' = Some rm \<and> rm r' = Some vm)"
proof (cases "m' = m")
  case True
  with assms show ?thesis by blast
next
  case False
  with assms(1) have "m' = store m g (res_Name res) (verbOf (strings_Split (op_Name operation)))
                          (newDataAction operation (res_Namespaced res))"
    by (auto simp: opStep_def Let_def split: if_splits)
  with assms(2,3) show ?thesis using store_keys by blast
qed

lemma opsLoop_keys:
  assumes "opsLoop g res aid m ops = Inr m'" and "m' g' = Some rm'" and "rm' r' = Some vm'"
  shows "(g' = g \<and> r' = res_Name res) \<or> (\<exists>rm vm. m g' = Some rm \<and> rm r' = Some vm)"
  using assms
proof (induction ops arbitrary: m)
  case Nil
  then show ?case by auto
next
  case (Cons operation rest)
  from Cons.prems(1) obtain m1 where
    step: "opStep g res aid m operation = Inr m1" and loop: "opsLoop g res aid m1 rest = Inr m'"
    by (auto split: sum.splits)
  from Cons.IH [OF loop Cons.prems(2,3)] opStep_keys [OF step]
  show ?case by blast
qed

subsection \<open>Entries of a returned table\<close>

lemma entryOf_Some:
  assumes "entryOf R g r v = Inr (Some da)"
  shows "\<exists>t rm vm. R = Inr t \<and> t g = Some rm \<and> rm r = Some vm \<and> vm v = Some da
           \<and> lookup t g r v = Some da"
  using assms by (auto simp: entryOf_def lookup_def split: sum.splits option.splits)

lemma Id_newDataAction: "Id (ActionInfo (newDataAction operation ns)) = op_Name operation"
  by (simp add: newDataAction_def)

lemma IsDataAction_newDataAction: "IsDataAction (ActionInfo (newDataAction operation ns))"
  by (simp add: newDataAction_def)

lemma events_k8s_io_segment:
  "strings_Split ''Microsoft.Kubernetes/connectedClusters/events.k8s.io/events/read'' ! 2
   = ''events.k8s.io''"
  by code_simp


lemma supported_clusterTypes_plain:
  "plainPath ConnectedClusters" "plainPath ManagedClusters" "plainPath Fleets"
  "CHR ''/'' \<in> set ConnectedClusters" "CHR ''/'' \<in> set ManagedClusters" "CHR ''/'' \<in> set Fleets"
  by (simp_all add: plainPath_def plainElem_def ConnectedClusters_def ManagedClusters_def Fleets_def)

lemma entryOf_Inl: "entryOf R g r v = Inl p \<Longrightarrow> R = Inl p"
  by (auto simp: entryOf_def split: sum.splits)

section \<open>The claims\<close>

text \<open>
  C1. For the catalog with the core-group resource \<open>pods\<close> (namespaced) and the operation
  \<open>Microsoft.Kubernetes/connectedClusters/pods/read\<close>, flagged as a data action,
  \<open>createOperationsMap\<close> with the connected-clusters type returns a table whose entry at
  \<open>["v1"]["pods"]["read"]\<close> has the full operation name as its id, \<open>IsDataAction\<close> true
  and \<open>IsNamespacedResource\<close> true.
\<close>

theorem pods_read_entry:
  "entryOf (createOperationsMap
       [Some \<lparr>GroupVersion = ''v1'', APIResources = [\<lparr>res_Name = ''pods'', res_Namespaced = True\<rparr>]\<rparr>]
       [\<lparr>op_Name = ''Microsoft.Kubernetes/connectedClusters/pods/read'', op_Display = d,
         op_IsDataAction = Some True\<rparr>]
       ConnectedClusters) ''v1'' ''pods'' ''read''
   = Inr (Some \<lparr>ActionInfo = \<lparr>Id = ''Microsoft.Kubernetes/connectedClusters/pods/read'',
                               IsDataAction = True\<rparr>,
               IsNamespacedResource = True\<rparr>)"
  by code_simp

text \<open>
  C2. Every record of the table has, at index 2 of its split id, the group it is stored
  under when that group is not the core group, and the resource name it is stored under
  when it is. So whatever the catalog and the operations are, no record of the operation
  \<open>Microsoft.Kubernetes/connectedClusters/events.k8s.io/events/read\<close> is stored under the
  \<open>events\<close> entry of the core group.
\<close>

theorem group_resource_disambiguation:
  assumes "createOperationsMap api ops clusterType = Inr t"
    and "lookup t g r v = Some da"
  shows "2 < length (strings_Split (Id (ActionInfo da)))
       \<and> strings_Split (Id (ActionInfo da)) ! 2 = (if g \<noteq> ''v1'' then g else r)
       \<and> (g = ''v1'' \<and> r = ''events'' \<longrightarrow>
            Id (ActionInfo da)
            \<noteq> ''Microsoft.Kubernetes/connectedClusters/events.k8s.io/events/read'')"
proof -
  from table_entry_origin [OF assms] obtain res :: APIResource and operation where
    l: "lastMapsTo clusterType g r v ops = Some operation"
    and da: "da = newDataAction operation (res_Namespaced res)" by blast
  from lastMapsTo_Some [OF l] have "mapsTo clusterType g r v operation" by blast
  then have seg: "2 < length (strings_Split (Id (ActionInfo da)))"
      "strings_Split (Id (ActionInfo da)) ! 2 = (if g \<noteq> ''v1'' then g else r)"
    by (simp_all add: mapsTo_def da Id_newDataAction)
  have "Id (ActionInfo da)
          \<noteq> ''Microsoft.Kubernetes/connectedClusters/events.k8s.io/events/read''"
    if "g = ''v1''" "r = ''events''"
  proof
    assume "Id (ActionInfo da)
              = ''Microsoft.Kubernetes/connectedClusters/events.k8s.io/events/read''"
    with seg(2) that have "''events.k8s.io'' = ''events''"
      by (simp add: events_k8s_io_segment)
    then show False by simp
  qed
  with seg show ?thesis by blast
qed

theorem group_resource_disambiguation_witness:
  "entryOf (createOperationsMap
       [Some \<lparr>GroupVersion = ''v1'',
              APIResources = [\<lparr>res_Name = ''events'', res_Namespaced = True\<rparr>]\<rparr>,
        Some \<lparr>GroupVersion = ''events.k8s.io/v1'',
              APIResources = [\<lparr>res_Name = ''events'', res_Namespaced = True\<rparr>]\<rparr>]
       [dataAction ''Microsoft.Kubernetes/connectedClusters/events.k8s.io/events/read'',
        dataAction ''Microsoft.Kubernetes/connectedClusters/events/read'']
       ConnectedClusters) ''v1'' ''events'' ''read''
     = Inr (Some (newDataAction (dataAction ''Microsoft.Kubernetes/connectedClusters/events/read'') True))
   \<and> strings_Split (Id (ActionInfo (newDataAction
         (dataAction ''Microsoft.Kubernetes/connectedClusters/events/read'') True))) ! 2 = ''events''
   \<and> Id (ActionInfo (newDataAction
         (dataAction ''Microsoft.Kubernetes/connectedClusters/events/read'') True))
      \<noteq> ''Microsoft.Kubernetes/connectedClusters/events.k8s.io/events/read''"
proof -
  let ?R = "createOperationsMap
       [Some \<lparr>GroupVersion = ''v1'',
              APIResources = [\<lparr>res_Name = ''events'', res_Namespaced = True\<rparr>]\<rparr>,
        Some \<lparr>GroupVersion = ''events.k8s.io/v1'',
              APIResources = [\<lparr>res_Name = ''events'', res_Namespaced = True\<rparr>]\<rparr>]
       [dataAction ''Microsoft.Kubernetes/connectedClusters/events.k8s.io/events/read'',
        dataAction ''Microsoft.Kubernetes/connectedClusters/events/read'']
       ConnectedClusters"
  let ?da = "newDataAction (dataAction ''Microsoft.Kubernetes/connectedClusters/events/read'') True"
  have e: "entryOf ?R ''v1'' ''events'' ''read'' = Inr (Some ?da)"
    by code_simp
  from entryOf_Some [OF e] obtain t where
    "?R = Inr t" "lookup t ''v1'' ''events'' ''read'' = Some ?da" by blast
  from group_resource_disambiguation [OF this] e show ?thesis by simp
qed

text \<open>
  C3. A response in which an operation has no \<open>isDataAction\<close> field decodes to a nil
  pointer. The claim is that the fetch excludes such an operation without crashing; the
  code dereferences the pointer unchecked: every decoded list that holds such an
  operation makes \<open>fetchDataActionsList\<close> panic.
\<close>

theorem missing_isDataAction_panics:
  assumes "\<exists>operation \<in> set (Value operationsList). op_IsDataAction operation = None"
  shows "fetchDataActionsList (Inr operationsList) settings = Inl NilPointerDereference"
  using filterOperations_nil [OF assms] by (simp add: fetchDataActionsList_def)

theorem missing_isDataAction_panics_witness:
  "fetchDataActionsList
     (Inr \<lparr>Value = [(dataAction ''Microsoft.Kubernetes/connectedClusters/pods/read'')
                       \<lparr>op_IsDataAction := None\<rparr>],
           NextLink = ''''\<rparr>)
     \<lparr>settings_clusterType = ConnectedClusters,
      settings_environment = \<lparr>ResourceManagerEndpoint = ''https://management.azure.com/'',
                              ActiveDirectoryEndpoint = ''https://login.microsoftonline.com/''\<rparr>,
      settings_operationsEndpoint = '''', settings_aksLoginURL = '''',
      settings_kubeconfigFilePath = '''', settings_tenantID = '''', settings_clientID = '''',
      settings_clientSecret = ''''\<rparr>
   = Inl NilPointerDereference"
  by (rule missing_isDataAction_panics) simp

text \<open>
  C4, as amended. When the cluster type contains a \<open>/\<close> and all its segments are
  ordinary path elements (as for the three supported types), and the group and the name
  of every catalog resource that is not a subresource are ordinary path elements, every
  operation name that contains the action id of such a resource has at least three
  segments; so \<open>createOperationsMap\<close> does not read \<open>opNameArr[2]\<close> out of range, and it
  returns a table when no pointer of the catalog is nil.
\<close>

theorem segment_index_in_range:
  assumes "plainPath clusterType" and "CHR ''/'' \<in> set clusterType"
    and "\<forall>resList res. Some resList \<in> set api \<and> res \<in> set (APIResources resList)
           \<and> \<not> strings_Contains (res_Name res) ''/''
           \<longrightarrow> plainElem (groupOf resList) \<and> plainElem (res_Name res)"
  shows "createOperationsMap api ops clusterType \<noteq> Inl IndexOutOfRange
       \<and> (None \<notin> set api \<longrightarrow> (\<exists>t. createOperationsMap api ops clusterType = Inr t))
       \<and> (\<forall>resList res operation.
             Some resList \<in> set api \<and> res \<in> set (APIResources resList)
             \<and> \<not> strings_Contains (res_Name res) ''/''
             \<and> strings_Contains (op_Name operation)
                   (actionIdOf clusterType (groupOf resList) (res_Name res))
             \<longrightarrow> 3 \<le> length (strings_Split (op_Name operation)))"
proof -
  have slashes: "2 \<le> count_list (actionIdOf clusterType (groupOf resList) (res_Name res)) CHR ''/''"
    if "Some resList \<in> set api" "res \<in> set (APIResources resList)"
       "\<not> strings_Contains (res_Name res) ''/''" for resList res
  proof (rule actionIdOf_slashes [OF assms(1,2)])
    show "plainElem (groupOf resList)" "plainElem (res_Name res)"
      using assms(3) that by blast+
    show "CHR ''/'' \<notin> set (groupOf resList)" by (rule groupOf_no_slash)
    show "CHR ''/'' \<notin> set (res_Name res)" using that(3) by (simp add: strings_Contains_slash)
  qed
  then have "\<forall>resList res. Some resList \<in> set api \<and> res \<in> set (APIResources resList)
             \<and> \<not> strings_Contains (res_Name res) ''/'' \<longrightarrow>
             2 \<le> count_list (actionIdOf clusterType (groupOf resList) (res_Name res)) CHR ''/''"
    by blast
  from listsLoop_ok [OF this, of ops Map.empty]
  have "createOperationsMap api ops clusterType \<noteq> Inl IndexOutOfRange
       \<and> (None \<notin> set api \<longrightarrow> (\<exists>t. createOperationsMap api ops clusterType = Inr t))"
    by (simp add: createOperationsMap_def NewOperationsMap_def)
  moreover have "3 \<le> length (strings_Split (op_Name operation))"
    if "Some resList \<in> set api" "res \<in> set (APIResources resList)"
       "\<not> strings_Contains (res_Name res) ''/''"
       "strings_Contains (op_Name operation)
          (actionIdOf clusterType (groupOf resList) (res_Name res))" for resList res operation
    using strings_Contains_segments [OF that(4) slashes [OF that(1,2,3)]] by simp
  ultimately show ?thesis by blast
qed

theorem segment_index_in_range_witness:
  "plainPath ManagedClusters \<and> CHR ''/'' \<in> set ManagedClusters
   \<and> plainElem ''apps'' \<and> plainElem ''deployments''
   \<and> (\<exists>t. createOperationsMap
         [Some \<lparr>GroupVersion = ''apps/v1'',
                APIResources = [\<lparr>res_Name = ''deployments'', res_Namespaced = True\<rparr>,
                                \<lparr>res_Name = ''deployments/scale'', res_Namespaced = True\<rparr>]\<rparr>]
         [dataAction ''Microsoft.ContainerService/managedClusters/apps/deployments/read'']
         ManagedClusters = Inr t)
   \<and> 3 \<le> length (strings_Split ''Microsoft.ContainerService/managedClusters/apps/deployments/read'')"
proof -
  let ?rl = "\<lparr>GroupVersion = ''apps/v1'',
                APIResources = [\<lparr>res_Name = ''deployments'', res_Namespaced = True\<rparr>,
                                \<lparr>res_Name = ''deployments/scale'', res_Namespaced = True\<rparr>]\<rparr>"
  let ?op = "dataAction ''Microsoft.ContainerService/managedClusters/apps/deployments/read''"
  have g: "groupOf ?rl = ''apps''" by (simp add: groupOf_def)
  have p: "plainElem ''apps''" "plainElem ''deployments''" by (simp_all add: plainElem_def)
  have h: "\<forall>resList res. Some resList \<in> set [Some ?rl] \<and> res \<in> set (APIResources resList)
           \<and> \<not> strings_Contains (res_Name res) ''/''
           \<longrightarrow> plainElem (groupOf resList) \<and> plainElem (res_Name res)"
    using g p by auto
  have c: "strings_Contains (op_Name ?op) (actionIdOf ManagedClusters ''apps'' ''deployments'')"
    by code_simp
  note r = segment_index_in_range [OF supported_clusterTypes_plain(2,5) h, of "[?op]"]
  have e: "\<exists>t. createOperationsMap [Some ?rl] [?op] ManagedClusters = Inr t"
    by (rule r [THEN conjunct2, THEN conjunct1, rule_format]) simp
  have "3 \<le> length (strings_Split (op_Name ?op))"
  proof (rule r [THEN conjunct2, THEN conjunct2, rule_format,
                 of ?rl "\<lparr>res_Name = ''deployments'', res_Namespaced = True\<rparr>" ?op])
    show "Some ?rl \<in> set [Some ?rl]
        \<and> \<lparr>res_Name = ''deployments'', res_Namespaced = True\<rparr> \<in> set (APIResources ?rl)
        \<and> \<not> strings_Contains (res_Name \<lparr>res_Name = ''deployments'', res_Namespaced = True\<rparr>) ''/''
        \<and> strings_Contains (op_Name ?op)
             (actionIdOf ManagedClusters (groupOf ?rl)
                (res_Name \<lparr>res_Name = ''deployments'', res_Namespaced = True\<rparr>))"
      using c g by simp
  qed
  with e p supported_clusterTypes_plain(2,5)
  show ?thesis by (simp add: dataAction_def)
qed

text \<open>
  The claim as stated fails: there is no skip. With the cluster type \<open>aks\<close> the
  operation \<open>aks/pods\<close> contains the action id of \<open>pods\<close> and has two segments; with
  a supported cluster type and a resource with an empty name the action id is the cluster
  type itself. Both runs panic.
\<close>

theorem short_identifier_panics:
  "createOperationsMap
       [Some \<lparr>GroupVersion = ''v1'',
              APIResources = [\<lparr>res_Name = ''pods'', res_Namespaced = True\<rparr>]\<rparr>]
       [dataAction ''aks/pods'']
       ''aks'' = Inl IndexOutOfRange
   \<and> createOperationsMap
       [Some \<lparr>GroupVersion = ''v1'',
              APIResources = [\<lparr>res_Name = '''', res_Namespaced = False\<rparr>]\<rparr>]
       [dataAction ''Microsoft.Kubernetes/connectedClusters'']
       ConnectedClusters = Inl IndexOutOfRange"
proof
  have "entryOf (createOperationsMap
       [Some \<lparr>GroupVersion = ''v1'',
              APIResources = [\<lparr>res_Name = ''pods'', res_Namespaced = True\<rparr>]\<rparr>]
       [dataAction ''aks/pods''] ''aks'') ''v1'' ''pods'' ''pods'' = Inl IndexOutOfRange"
    by code_simp
  then show "createOperationsMap
       [Some \<lparr>GroupVersion = ''v1'',
              APIResources = [\<lparr>res_Name = ''pods'', res_Namespaced = True\<rparr>]\<rparr>]
       [dataAction ''aks/pods''] ''aks'' = Inl IndexOutOfRange"
    by (rule entryOf_Inl)
  have "entryOf (createOperationsMap
       [Some \<lparr>GroupVersion = ''v1'',
              APIResources = [\<lparr>res_Name = '''', res_Namespaced = False\<rparr>]\<rparr>]
       [dataAction ''Microsoft.Kubernetes/connectedClusters'']
       ConnectedClusters) ''v1'' '''' '''' = Inl IndexOutOfRange"
    by code_simp
  then show "createOperationsMap
       [Some \<lparr>GroupVersion = ''v1'',
              APIResources = [\<lparr>res_Name = '''', res_Namespaced = False\<rparr>]\<rparr>]
       [dataAction ''Microsoft.Kubernetes/connectedClusters'']
       ConnectedClusters = Inl IndexOutOfRange"
    by (rule entryOf_Inl)
qed




text \<open>
  C6, as amended. For a cluster type that is not one of the three supported values,
  \<open>NewDiscoverResourcesSettings\<close> returns no settings and an error, whatever the other
  arguments are. The error is the one for the unsupported cluster type when the
  environment name is empty or resolves; the environment is resolved first.
\<close>

theorem unsupported_clusterType_fails:
  assumes "clusterType \<noteq> ManagedClusters" and "clusterType \<noteq> Fleets"
    and "clusterType \<noteq> ConnectedClusters"
  shows "fst (NewDiscoverResourcesSettings PublicCloud EnvironmentFromName clusterType environment
                loginURL kubeconfigFilePath tenantID clientID clientSecret) = None
       \<and> (\<exists>err. snd (NewDiscoverResourcesSettings PublicCloud EnvironmentFromName clusterType
                environment loginURL kubeconfigFilePath tenantID clientID clientSecret) = Some err)
       \<and> (environment = '''' \<or> snd (EnvironmentFromName environment) = None \<longrightarrow>
            snd (NewDiscoverResourcesSettings PublicCloud EnvironmentFromName clusterType
                environment loginURL kubeconfigFilePath tenantID clientID clientSecret)
            = Some (Errorf (''Failed to create endpoint for Get Operations call. Cluster type ''
                            @ clusterType @ '' is not supported.'')))"
  using assms by (auto simp: NewDiscoverResourcesSettings_def split: prod.splits option.splits)

theorem unsupported_clusterType_fails_witness:
  "''Microsoft.Foo/clusters'' \<noteq> ManagedClusters \<and> ''Microsoft.Foo/clusters'' \<noteq> Fleets
   \<and> ''Microsoft.Foo/clusters'' \<noteq> ConnectedClusters
   \<and> NewDiscoverResourcesSettings
        \<lparr>ResourceManagerEndpoint = ''https://management.azure.com/'',
         ActiveDirectoryEndpoint = ''https://login.microsoftonline.com/''\<rparr>
        unknownEnvironment ''Microsoft.Foo/clusters'' '''' '''' '''' '''' '''' ''''
      = (None, Some (Errorf ''Failed to create endpoint for Get Operations call. Cluster type Microsoft.Foo/clusters is not supported.''))"
proof -
  have a: "''Microsoft.Foo/clusters'' \<noteq> ManagedClusters" "''Microsoft.Foo/clusters'' \<noteq> Fleets"
    "''Microsoft.Foo/clusters'' \<noteq> ConnectedClusters"
    by (simp_all add: ManagedClusters_def Fleets_def ConnectedClusters_def)
  from unsupported_clusterType_fails [OF a,
      of "\<lparr>ResourceManagerEndpoint = ''https://management.azure.com/'',
           ActiveDirectoryEndpoint = ''https://login.microsoftonline.com/''\<rparr>"
         unknownEnvironment "''''" "''''" "''''" "''''" "''''" "''''"]
  show ?thesis using a by (simp add: prod_eq_iff)
qed

text \<open>
  The claim as stated fails for an environment name that does not resolve: the error
  returned is the one of the environment, not the one of the cluster type.
\<close>

theorem unknown_environment_error_first:
  "NewDiscoverResourcesSettings
        \<lparr>ResourceManagerEndpoint = ''https://management.azure.com/'',
         ActiveDirectoryEndpoint = ''https://login.microsoftonline.com/''\<rparr>
        unknownEnvironment ''Microsoft.Foo/clusters'' ''NoSuchCloud'' '''' '''' '''' '''' ''''
     = (None, Some (Wrap (Errorf ''autorest/azure: There is no cloud environment matching the name NoSuchCloud'')
                         ''Failed to parse environment for Azure.''))
   \<and> snd (NewDiscoverResourcesSettings
        \<lparr>ResourceManagerEndpoint = ''https://management.azure.com/'',
         ActiveDirectoryEndpoint = ''https://login.microsoftonline.com/''\<rparr>
        unknownEnvironment ''Microsoft.Foo/clusters'' ''NoSuchCloud'' '''' '''' '''' '''' '''')
     \<noteq> Some (Errorf ''Failed to create endpoint for Get Operations call. Cluster type Microsoft.Foo/clusters is not supported.'')"
  by (simp add: NewDiscoverResourcesSettings_def unknownEnvironment_def)

text \<open>
  C7. When \<open>NewDiscoverResourcesSettings\<close> returns settings, it returns no error, the
  cluster type is one of the three supported ones, the environment is the resolved one
  (the public cloud for an empty name), and the operations endpoint is determined by the
  environment and the cluster type of the settings: the resource manager endpoint of the
  environment followed by the ARC path for connected clusters, and by the AKS path for
  managed clusters and fleets.
\<close>

theorem operationsEndpoint_of_settings:
  assumes "NewDiscoverResourcesSettings PublicCloud EnvironmentFromName clusterType environment
             loginURL kubeconfigFilePath tenantID clientID clientSecret = (Some settings, err)"
  shows "err = None
       \<and> settings_clusterType settings = clusterType
       \<and> (clusterType = ConnectedClusters \<or> clusterType = ManagedClusters \<or> clusterType = Fleets)
       \<and> settings_environment settings =
           (if environment \<noteq> '''' then fst (EnvironmentFromName environment) else PublicCloud)
       \<and> settings_operationsEndpoint settings =
           (if settings_clusterType settings = ConnectedClusters
            then ResourceManagerEndpoint (settings_environment settings)
                 @ ''/providers/Microsoft.Kubernetes/operations?api-version=2021-10-01''
            else ResourceManagerEndpoint (settings_environment settings)
                 @ ''/providers/Microsoft.ContainerService/operations?api-version=2018-10-31'')"
  using assms clusterTypes_distinct
  by (auto simp: NewDiscoverResourcesSettings_def Let_def sprintf_ARC sprintf_AKS
           split: prod.splits option.splits if_splits)

theorem operationsEndpoint_of_settings_witness:
  "NewDiscoverResourcesSettings
        \<lparr>ResourceManagerEndpoint = ''https://management.azure.com/'',
         ActiveDirectoryEndpoint = ''https://login.microsoftonline.com/''\<rparr>
        unknownEnvironment ManagedClusters '''' ''login'' ''kubeconfig'' ''tenant'' ''client'' ''secret''
   = (Some \<lparr>settings_clusterType = ManagedClusters,
            settings_environment =
              \<lparr>ResourceManagerEndpoint = ''https://management.azure.com/'',
               ActiveDirectoryEndpoint = ''https://login.microsoftonline.com/''\<rparr>,
            settings_operationsEndpoint =
              ''https://management.azure.com//providers/Microsoft.ContainerService/operations?api-version=2018-10-31'',
            settings_aksLoginURL = ''login'', settings_kubeconfigFilePath = ''kubeconfig'',
            settings_tenantID = ''tenant'', settings_clientID = ''client'',
            settings_clientSecret = ''secret''\<rparr>, None)
   \<and> settings_operationsEndpoint
        \<lparr>settings_clusterType = ManagedClusters,
            settings_environment =
              \<lparr>ResourceManagerEndpoint = ''https://management.azure.com/'',
               ActiveDirectoryEndpoint = ''https://login.microsoftonline.com/''\<rparr>,
            settings_operationsEndpoint =
              ''https://management.azure.com//providers/Microsoft.ContainerService/operations?api-version=2018-10-31'',
            settings_aksLoginURL = ''login'', settings_kubeconfigFilePath = ''kubeconfig'',
            settings_tenantID = ''tenant'', settings_clientID = ''client'',
            settings_clientSecret = ''secret''\<rparr>
     = ''https://management.azure.com/''
       @ ''/providers/Microsoft.ContainerService/operations?api-version=2018-10-31''"
proof -
  let ?s = "\<lparr>settings_clusterType = ManagedClusters,
            settings_environment =
              \<lparr>ResourceManagerEndpoint = ''https://management.azure.com/'',
               ActiveDirectoryEndpoint = ''https://login.microsoftonline.com/''\<rparr>,
            settings_operationsEndpoint =
              ''https://management.azure.com//providers/Microsoft.ContainerService/operations?api-version=2018-10-31'',
            settings_aksLoginURL = ''login'', settings_kubeconfigFilePath = ''kubeconfig'',
            settings_tenantID = ''tenant'', settings_clientID = ''client'',
            settings_clientSecret = ''secret''\<rparr>"
  have r: "NewDiscoverResourcesSettings
        \<lparr>ResourceManagerEndpoint = ''https://management.azure.com/'',
         ActiveDirectoryEndpoint = ''https://login.microsoftonline.com/''\<rparr>
        unknownEnvironment ManagedClusters '''' ''login'' ''kubeconfig'' ''tenant'' ''client'' ''secret''
      = (Some ?s, None)"
    using clusterTypes_distinct
    by (simp add: NewDiscoverResourcesSettings_def sprintf_AKS)
  from operationsEndpoint_of_settings [OF r] r clusterTypes_distinct show ?thesis by simp
qed

text \<open>
  C8. In the table \<open>createOperationsMap\<close> returns, no resource-name key, under any group,
  contains a \<open>/\<close>.
\<close>

theorem no_subresource_keys:
  assumes "createOperationsMap api ops clusterType = Inr t"
    and "t g = Some rm" and "rm r = Some vm"
  shows "CHR ''/'' \<notin> set r"
proof -
  define P :: "OperationsMap \<Rightarrow> bool" where
    "P m \<longleftrightarrow> (\<forall>g rm r vm. m g = Some rm \<longrightarrow> rm r = Some vm \<longrightarrow> CHR ''/'' \<notin> set r)" for m
  have "P t"
  proof (rule createOperationsMap_invariant [where P = P, OF assms(1)])
    show "P Map.empty" by (simp add: P_def)
  next
    fix m m' resList res
    assume pm: "P m" and sub: "\<not> strings_Contains (res_Name res) ''/''"
      and loop: "opsLoop (groupOf resList) res
                   (actionIdOf clusterType (groupOf resList) (res_Name res)) m ops = Inr m'"
    show "P m'"
      unfolding P_def
    proof (intro allI impI)
      fix g' rm' r' vm'
      assume "m' g' = Some rm'" "rm' r' = Some vm'"
      from opsLoop_keys [OF loop this]
      consider "r' = res_Name res" | rm0 vm0 where "m g' = Some rm0" "rm0 r' = Some vm0"
        by blast
      then show "CHR ''/'' \<notin> set r'"
      proof cases
        case 1
        with sub show ?thesis by (simp add: strings_Contains_slash)
      next
        case 2
        with pm show ?thesis unfolding P_def by blast
      qed
    qed
  qed
  with assms(2,3) show ?thesis unfolding P_def by blast
qed

theorem no_subresource_keys_witness:
  "\<exists>t rm vm. createOperationsMap
       [Some \<lparr>GroupVersion = ''v1'',
              APIResources = [\<lparr>res_Name = ''pods'', res_Namespaced = True\<rparr>,
                              \<lparr>res_Name = ''pods/log'', res_Namespaced = True\<rparr>]\<rparr>]
       [dataAction ''Microsoft.Kubernetes/connectedClusters/pods/read'',
        dataAction ''Microsoft.Kubernetes/connectedClusters/pods/log/read'']
       ConnectedClusters = Inr t
     \<and> t ''v1'' = Some rm \<and> rm ''pods'' = Some vm \<and> CHR ''/'' \<notin> set ''pods''
     \<and> rm ''pods/log'' = None"
proof -
  let ?R = "createOperationsMap
       [Some \<lparr>GroupVersion = ''v1'',
              APIResources = [\<lparr>res_Name = ''pods'', res_Namespaced = True\<rparr>,
                              \<lparr>res_Name = ''pods/log'', res_Namespaced = True\<rparr>]\<rparr>]
       [dataAction ''Microsoft.Kubernetes/connectedClusters/pods/read'',
        dataAction ''Microsoft.Kubernetes/connectedClusters/pods/log/read'']
       ConnectedClusters"
  have "entryOf ?R ''v1'' ''pods'' ''read''
        = Inr (Some (newDataAction
                (dataAction ''Microsoft.Kubernetes/connectedClusters/pods/log/read'') True))"
    by code_simp
  from entryOf_Some [OF this] obtain t rm vm where
    t: "?R = Inr t" "t ''v1'' = Some rm" "rm ''pods'' = Some vm" by blast
  have "rm ''pods/log'' = None"
  proof (cases "rm ''pods/log''")
    case None
    then show ?thesis .
  next
    case (Some vm')
    from no_subresource_keys [OF t(1,2) Some] show ?thesis by simp
  qed
  moreover from no_subresource_keys [OF t] have "CHR ''/'' \<notin> set ''pods''" .
  ultimately show ?thesis using t by blast
qed

text \<open>
  C9. When the run returns a table and a resource of the catalog is not a subresource,
  the entry at a triple of its group, its name and a verb is the record of the last
  operation of the list that maps to the triple: the id is the name of that operation,
  whatever operations before it map to the same triple, and the namespaced flag is that
  of a catalog resource with this group and name. A triple holds one record, the table
  being a map.
\<close>

theorem last_write_wins:
  assumes "createOperationsMap api ops clusterType = Inr t"
    and "Some resList \<in> set api" and "res \<in> set (APIResources resList)"
    and "\<not> strings_Contains (res_Name res) ''/''"
    and "ops = before @ operation # after"
    and "mapsTo clusterType (groupOf resList) (res_Name res) verb operation"
    and "\<forall>later \<in> set after. \<not> mapsTo clusterType (groupOf resList) (res_Name res) verb later"
  shows "\<exists>da. lookup t (groupOf resList) (res_Name res) verb = Some da
            \<and> Id (ActionInfo da) = op_Name operation
            \<and> IsDataAction (ActionInfo da)
            \<and> (\<exists>resList' res'. Some resList' \<in> set api \<and> res' \<in> set (APIResources resList')
                  \<and> groupOf resList' = groupOf resList \<and> res_Name res' = res_Name res
                  \<and> da = newDataAction operation (res_Namespaced res'))"
proof -
  have l: "lastMapsTo clusterType (groupOf resList) (res_Name res) verb ops = Some operation"
    unfolding assms(5) by (rule lastMapsTo_append [OF assms(6,7)])
  from table_entry_exists [OF assms(1-4) l] obtain da where
    da: "lookup t (groupOf resList) (res_Name res) verb = Some da" by blast
  from table_entry_origin [OF assms(1) da] l obtain resList' and res' :: APIResource where
    o: "Some resList' \<in> set api" "res' \<in> set (APIResources resList')"
       "groupOf resList = groupOf resList'" "res_Name res = res_Name res'"
       "da = newDataAction operation (res_Namespaced res')"
    by auto
  have "Id (ActionInfo da) = op_Name operation" "IsDataAction (ActionInfo da)"
    by (simp_all add: o(5) Id_newDataAction IsDataAction_newDataAction)
  with da o show ?thesis by metis
qed

theorem last_write_wins_witness:
  "\<exists>t da. createOperationsMap
       [Some \<lparr>GroupVersion = ''v1'',
              APIResources = [\<lparr>res_Name = ''pods'', res_Namespaced = True\<rparr>]\<rparr>]
       [dataAction ''Microsoft.Kubernetes/connectedClusters/pods/read'',
        dataAction ''Microsoft.Kubernetes/connectedClusters/pods/log/read'',
        dataAction ''Microsoft.Kubernetes/connectedClusters/pods/delete'']
       ConnectedClusters = Inr t
     \<and> mapsTo ConnectedClusters ''v1'' ''pods'' ''read''
          (dataAction ''Microsoft.Kubernetes/connectedClusters/pods/read'')
     \<and> mapsTo ConnectedClusters ''v1'' ''pods'' ''read''
          (dataAction ''Microsoft.Kubernetes/connectedClusters/pods/log/read'')
     \<and> lookup t ''v1'' ''pods'' ''read'' = Some da
     \<and> Id (ActionInfo da) = ''Microsoft.Kubernetes/connectedClusters/pods/log/read''"
proof -
  let ?rl = "\<lparr>GroupVersion = ''v1'',
              APIResources = [\<lparr>res_Name = ''pods'', res_Namespaced = True\<rparr>]\<rparr>"
  let ?o1 = "dataAction ''Microsoft.Kubernetes/connectedClusters/pods/read''"
  let ?o2 = "dataAction ''Microsoft.Kubernetes/connectedClusters/pods/log/read''"
  let ?o3 = "dataAction ''Microsoft.Kubernetes/connectedClusters/pods/delete''"
  let ?R = "createOperationsMap [Some ?rl] [?o1, ?o2, ?o3] ConnectedClusters"
  have "entryOf ?R ''v1'' ''pods'' ''delete'' = Inr (Some (newDataAction ?o3 True))"
    by code_simp
  from entryOf_Some [OF this] obtain t where t: "?R = Inr t" by blast
  have g: "groupOf ?rl = ''v1''" by (simp add: groupOf_def)
  have m1: "mapsTo ConnectedClusters ''v1'' ''pods'' ''read'' ?o1" by code_simp
  have m2: "mapsTo ConnectedClusters ''v1'' ''pods'' ''read'' ?o2" by code_simp
  have m3: "\<not> mapsTo ConnectedClusters ''v1'' ''pods'' ''read'' ?o3" by code_simp
  have "\<exists>da. lookup t (groupOf ?rl) (res_Name \<lparr>res_Name = ''pods'', res_Namespaced = True\<rparr>) ''read''
             = Some da
          \<and> Id (ActionInfo da) = op_Name ?o2
          \<and> IsDataAction (ActionInfo da)
          \<and> (\<exists>resList' res'. Some resList' \<in> set [Some ?rl] \<and> res' \<in> set (APIResources resList')
                  \<and> groupOf resList' = groupOf ?rl
                  \<and> res_Name res' = res_Name \<lparr>res_Name = ''pods'', res_Namespaced = True\<rparr>
                  \<and> da = newDataAction ?o2 (res_Namespaced res'))"
  proof (rule last_write_wins [OF t, where before = "[?o1]" and after = "[?o3]"])
    show "\<forall>later \<in> set [?o3]. \<not> mapsTo ConnectedClusters (groupOf ?rl)
            (res_Name \<lparr>res_Name = ''pods'', res_Namespaced = True\<rparr>) ''read'' later"
      using m3 g by simp
    show "mapsTo ConnectedClusters (groupOf ?rl)
            (res_Name \<lparr>res_Name = ''pods'', res_Namespaced = True\<rparr>) ''read'' ?o2"
      using m2 g by simp
  qed simp_all
  then obtain da where "lookup t ''v1'' ''pods'' ''read'' = Some da"
    "Id (ActionInfo da) = ''Microsoft.Kubernetes/connectedClusters/pods/log/read''"
    using g by (auto simp: dataAction_def)
  with t m1 m2 show ?thesis by blast
qed

text \<open>
  C10. When fetching the resources of the cluster returns an error, and when it succeeds
  and the fetch of the operations returns an error, \<open>DiscoverResources\<close> returns the empty
  table and the error wrapped in the message of the failed phase. A table returned
  together with an error is always empty.
\<close>

theorem DiscoverResources_error_table_empty:
  "(snd apiResources = Some err \<longrightarrow>
      DiscoverResources apiResources response settings
      = Inr (Map.empty, Some (Wrap err ''Failed to fetch list of api-resources from apiserver.'')))
   \<and> (snd apiResources = None \<and> response = Inl err \<longrightarrow>
      DiscoverResources apiResources response settings
      = Inr (Map.empty, Some (Wrap err ''Failed to fetch operations from Azure.'')))
   \<and> (DiscoverResources apiResources response settings = Inr (m, Some e) \<longrightarrow> m = Map.empty)"
  by (cases apiResources)
     (auto simp: DiscoverResources_def fetchDataActionsList_def Let_def
           split: option.splits sum.splits prod.splits)

theorem DiscoverResources_error_table_empty_witness:
  "DiscoverResources ([], Some (Errorf ''Error building kubeconfig'')) (Inl (Errorf ''unused''))
     \<lparr>settings_clusterType = ConnectedClusters,
      settings_environment = \<lparr>ResourceManagerEndpoint = ''https://management.azure.com/'',
                              ActiveDirectoryEndpoint = ''https://login.microsoftonline.com/''\<rparr>,
      settings_operationsEndpoint = '''', settings_aksLoginURL = '''',
      settings_kubeconfigFilePath = '''', settings_tenantID = '''', settings_clientID = '''',
      settings_clientSecret = ''''\<rparr>
   = Inr (Map.empty, Some (Wrap (Errorf ''Error building kubeconfig'')
                             ''Failed to fetch list of api-resources from apiserver.''))
   \<and> DiscoverResources
       ([Some \<lparr>GroupVersion = ''v1'',
               APIResources = [\<lparr>res_Name = ''pods'', res_Namespaced = True\<rparr>]\<rparr>], None)
       (Inl (Errorf ''Request failed with status code: 500 and response: ''))
     \<lparr>settings_clusterType = ConnectedClusters,
      settings_environment = \<lparr>ResourceManagerEndpoint = ''https://management.azure.com/'',
                              ActiveDirectoryEndpoint = ''https://login.microsoftonline.com/''\<rparr>,
      settings_operationsEndpoint = '''', settings_aksLoginURL = '''',
      settings_kubeconfigFilePath = '''', settings_tenantID = '''', settings_clientID = '''',
      settings_clientSecret = ''''\<rparr>
   = Inr (Map.empty, Some (Wrap (Errorf ''Request failed with status code: 500 and response: '')
                             ''Failed to fetch operations from Azure.''))"
proof -
  let ?s = "\<lparr>settings_clusterType = ConnectedClusters,
      settings_environment = \<lparr>ResourceManagerEndpoint = ''https://management.azure.com/'',
                              ActiveDirectoryEndpoint = ''https://login.microsoftonline.com/''\<rparr>,
      settings_operationsEndpoint = '''', settings_aksLoginURL = '''',
      settings_kubeconfigFilePath = '''', settings_tenantID = '''', settings_clientID = '''',
      settings_clientSecret = ''''\<rparr>"
  from DiscoverResources_error_table_empty
         [of "([], Some (Errorf ''Error building kubeconfig''))" "Errorf ''Error building kubeconfig''"
             "Inl (Errorf ''unused'')" ?s Map.empty "Errorf ''unused''"]
       DiscoverResources_error_table_empty
         [of "([Some \<lparr>GroupVersion = ''v1'',
               APIResources = [\<lparr>res_Name = ''pods'', res_Namespaced = True\<rparr>]\<rparr>], None)"
             "Errorf ''Request failed with status code: 500 and response: ''"
             "Inl (Errorf ''Request failed with status code: 500 and response: '')" ?s
             Map.empty "Errorf ''unused''"]
  show ?thesis by simp
qed

end
